theory Spec2Isabelle
  imports Main
begin

section \<open>The speech session controller of \<^verbatim>\<open>src/hooks/useSpeechRecognition.ts\<close>\<close>

text \<open>
  The hook wraps the browser's speech engine. Its mutable state is a handful of React
  state cells and refs; its behaviour is a set of engine event listeners, two timer
  callbacks, three public methods and the effect that binds the engine, with its
  cleanup. The model below keeps one record for all cells and refs, together with the
  parts of the host the code talks to: the pending timers of \<^verbatim>\<open>setTimeout\<close>, a clock,
  and logs of the calls made to the engine and to the consumer's callbacks.

  A React state setter is modelled as an assignment to the cell (the value the next
  render sees), and a functional update \<^verbatim>\<open>setX(prev => f(prev))\<close> as \<open>f\<close> applied to
  the cell. After a listener, timer callback or method has changed a cell, React renders
  the consumer again, and the render re-runs the binding effect when one of its
  dependencies has a new identity. Console output is not modelled. The consumer's
  callbacks are taken not to throw.
\<close>

subsection \<open>Engine, callbacks, timers\<close>

datatype prim = Start | Abort | Stop

text \<open>
  A call of a primitive is logged with what the caller could see of the two transcripts
  at that moment. The log does not tell apart the engine instances that successive
  runs of the binding effect create.
\<close>

record call =
  invoked :: prim
  sawTranscript :: string
  sawFinal :: string

text \<open>
  The engine is a black box whose primitives may throw. Its behaviour is a function of
  the calls made so far and the call being made: \<open>True\<close> means that the call throws.
\<close>

type_synonym engine = "call list \<Rightarrow> prim \<Rightarrow> bool"

datatype callback = OnResult string bool | OnEnd | OnError string

datatype timer_kind = Restart | Inactivity

record timer =
  handle :: nat
  due :: nat
  kind :: timer_kind

subsection \<open>Options and session state\<close>

text \<open>
  \<^verbatim>\<open>UseSpeechRecognitionOptions\<close>. The three callbacks are optional in the source and
  are called through \<^verbatim>\<open>?.\<close>; here each is a flag saying whether the consumer supplied it.
  What else the hook sees of a callback is its identity, which the binding effect lists
  among its dependencies: \<open>inlineCallbacks\<close> says that the consumer writes its callbacks
  inline, so that every render passes new functions, rather than memoised ones.
  \<^verbatim>\<open>timeout\<close> is in milliseconds.
\<close>

record options =
  continuous :: bool
  interimResults :: bool
  lang :: string
  timeout :: int
  onResult :: bool
  onEnd :: bool
  onError :: bool
  mobileOptimized :: bool
  inlineCallbacks :: bool

text \<open>
  The first five fields are the \<^verbatim>\<open>useState\<close> cells, the next seven the refs
  (\<open>recognitionRef\<close> holds whether \<^verbatim>\<open>recognitionRef.current\<close> is non-null; a timer ref
  is \<open>None\<close> for \<^verbatim>\<open>null\<close> and \<open>Some h\<close> for the handle \<^verbatim>\<open>setTimeout\<close> returned, which
  is truthy). The rest is the host: pending timers in the order they were scheduled,
  the clock in milliseconds, the next fresh handle, and the two logs.
\<close>

record session =
  isSupported :: bool
  isListening :: bool
  transcript :: string
  finalTranscript :: string
  manuallyStopped :: bool
  isListeningRef :: bool
  manuallyStoppedRef :: bool
  forceStoppedRef :: bool
  stopRequestedRef :: bool
  recognitionRef :: bool
  inactivityTimeoutRef :: "nat option"
  audioendTimeoutRef :: "nat option"
  timers :: "timer list"
  clock :: nat
  nextHandle :: nat
  calls :: "call list"
  callbacks :: "callback list"

definition setTimeout :: "timer_kind \<Rightarrow> nat \<Rightarrow> session \<Rightarrow> nat \<times> session" where
  "setTimeout k delay s =
     (nextHandle s,
      s\<lparr>timers := timers s @ [\<lparr>handle = nextHandle s, due = clock s + delay, kind = k\<rparr>],
        nextHandle := Suc (nextHandle s)\<rparr>)"

definition clearTimeout :: "nat \<Rightarrow> session \<Rightarrow> session" where
  "clearTimeout h s = s\<lparr>timers := filter (\<lambda>t. handle t \<noteq> h) (timers s)\<rparr>"

subsection \<open>The binding effect\<close>

text \<open>The cells and refs as \<^verbatim>\<open>useState\<close> and \<^verbatim>\<open>useRef\<close> create them (lines 39--51).\<close>

definition blank :: session where
  "blank =
     \<lparr>isSupported = False, isListening = False, transcript = [], finalTranscript = [],
      manuallyStopped = False, isListeningRef = False, manuallyStoppedRef = False,
      forceStoppedRef = False, stopRequestedRef = False, recognitionRef = False,
      inactivityTimeoutRef = None, audioendTimeoutRef = None, timers = [], clock = 0,
      nextHandle = 1, calls = [], callbacks = []\<rparr>"

text \<open>
  The body of the effect (lines 55--181): \<open>has_engine\<close> says whether
  \<^verbatim>\<open>window.SpeechRecognition || window.webkitSpeechRecognition\<close> exists. The listeners it
  attaches are the functions of the next subsection.
\<close>

definition effect :: "bool \<Rightarrow> session \<Rightarrow> session" where
  "effect has_engine s =
     (if has_engine then s\<lparr>isSupported := True, recognitionRef := True\<rparr> else s)"

text \<open>
  The cleanup of the effect (lines 183--190), which is also the cleanup on unmount
  (lines 196--203): both pending timers are cancelled; the refs keep their handles.
\<close>

definition cleanup :: "session \<Rightarrow> session" where
  "cleanup s =
     (let s1 = (case inactivityTimeoutRef s of None \<Rightarrow> s | Some h \<Rightarrow> clearTimeout h s)
      in case audioendTimeoutRef s1 of None \<Rightarrow> s1 | Some h \<Rightarrow> clearTimeout h s1)"

text \<open>The state after mounting: the first run of the effect.\<close>

definition init :: "bool \<Rightarrow> session" where
  "init has_engine = effect has_engine blank"

text \<open>
  A later run of the effect: first the cleanup of the previous run, then the body. The
  host's capability does not change while the page lives and no code assigns null to
  \<^verbatim>\<open>recognitionRef.current\<close>, so the ref is non-null exactly when the capability exists,
  and the probe of the later run is read off the ref.
\<close>

definition rerun :: "session \<Rightarrow> session" where
  "rerun s = effect (recognitionRef s) (cleanup s)"

text \<open>
  The dependencies of the effect (line 191) are three options compared by value and the
  three callbacks compared by identity. With the options fixed, a render changes a
  dependency exactly when a supplied callback is an inline function.
\<close>

definition deps_change :: "options \<Rightarrow> bool" where
  "deps_change opts = (inlineCallbacks opts \<and> (onResult opts \<or> onEnd opts \<or> onError opts))"

definition render :: "options \<Rightarrow> session \<Rightarrow> session" where
  "render opts s = (if deps_change opts then rerun s else s)"

text \<open>
  React renders again when a \<^verbatim>\<open>useState\<close> cell has changed: \<open>commit opts s s'\<close> is the
  state after the code that took \<open>s\<close> to \<open>s'\<close> has returned.
\<close>

definition cells :: "session \<Rightarrow> bool \<times> bool \<times> string \<times> string \<times> bool" where
  "cells s = (isSupported s, isListening s, transcript s, finalTranscript s, manuallyStopped s)"

definition commit :: "options \<Rightarrow> session \<Rightarrow> session \<Rightarrow> session" where
  "commit opts s s' = (if cells s' = cells s then s' else render opts s')"

subsection \<open>Exceptions\<close>

text \<open>
  A piece of code either returns or throws; both carry the state at that moment, since
  the assignments made before a throw stay made.
\<close>

datatype 'a outcome = Returned 'a | Threw 'a

fun state_of :: "'a outcome \<Rightarrow> 'a" where
  "state_of (Returned s) = s"
| "state_of (Threw s) = s"

fun and_then :: "'a outcome \<Rightarrow> ('a \<Rightarrow> 'a outcome) \<Rightarrow> 'a outcome" where
  "and_then (Returned s) f = f s"
| "and_then (Threw s) f = Threw s"

definition try_catch :: "('a \<Rightarrow> 'a outcome) \<Rightarrow> ('a \<Rightarrow> 'a outcome) \<Rightarrow> 'a \<Rightarrow> 'a outcome" where
  "try_catch body handler s = (case body s of Returned s' \<Rightarrow> Returned s' | Threw s' \<Rightarrow> handler s')"

definition logged :: "prim \<Rightarrow> session \<Rightarrow> call" where
  "logged p s = \<lparr>invoked = p, sawTranscript = transcript s, sawFinal = finalTranscript s\<rparr>"

definition call_prim :: "engine \<Rightarrow> prim \<Rightarrow> session \<Rightarrow> session outcome" where
  "call_prim eng p s =
     (if eng (calls s) p then Threw (s\<lparr>calls := calls s @ [logged p s]\<rparr>)
      else Returned (s\<lparr>calls := calls s @ [logged p s]\<rparr>))"

definition notify :: "bool \<Rightarrow> callback \<Rightarrow> session \<Rightarrow> session" where
  "notify supplied c s = (if supplied then s\<lparr>callbacks := callbacks s @ [c]\<rparr> else s)"

subsection \<open>Engine event listeners\<close>

text \<open>The callback of the restart timer (lines 81--91).\<close>

definition restart_callback :: "engine \<Rightarrow> session \<Rightarrow> session outcome" where
  "restart_callback eng s =
     (if isListeningRef s \<and> \<not> manuallyStoppedRef s \<and> \<not> forceStoppedRef s
         \<and> \<not> stopRequestedRef s \<and> recognitionRef s
      then try_catch
             (\<lambda>s. and_then (call_prim eng Start s) (\<lambda>s. Returned (s\<lparr>isListeningRef := True\<rparr>)))
             Returned s
      else Returned s)"

text \<open>The \<^verbatim>\<open>audioend\<close> listener (lines 68--93).\<close>

definition on_audioend :: "options \<Rightarrow> session \<Rightarrow> session" where
  "on_audioend opts s =
     (let s1 = s\<lparr>isListeningRef := False\<rparr> in
      if stopRequestedRef s1 then s1
      else if isListeningRef s1 \<and> continuous opts \<and> \<not> manuallyStoppedRef s1
              \<and> \<not> forceStoppedRef s1
      then (case setTimeout Restart 100 s1 of (h, s2) \<Rightarrow> s2\<lparr>audioendTimeoutRef := Some h\<rparr>)
      else s1)"

text \<open>The callback of the inactivity timer (lines 104--114).\<close>

definition inactivity_callback :: "engine \<Rightarrow> session \<Rightarrow> session outcome" where
  "inactivity_callback eng s =
     (if isListeningRef s \<and> recognitionRef s \<and> \<not> manuallyStoppedRef s
      then try_catch
             (\<lambda>s. and_then (call_prim eng Abort s)
                    (\<lambda>s. Returned (s\<lparr>isListening := False, isListeningRef := False\<rparr>)))
             Returned s
      else Returned s)"

text \<open>
  A \<^verbatim>\<open>result\<close> event: the list of results and the cursor \<^verbatim>\<open>resultIndex\<close>. Of each result
  the listener reads \<^verbatim>\<open>isFinal\<close> and the transcript of its first alternative,
  \<^verbatim>\<open>result[0].transcript\<close>; the engine is configured with \<^verbatim>\<open>maxAlternatives = 1\<close> and
  every result of the Web Speech API has a first alternative.
\<close>

record result =
  isFinal :: bool
  text0 :: string

record result_event =
  resultIndex :: nat
  results :: "result list"

text \<open>
  The loop of lines 118--128, from index \<open>i\<close> on, with the two accumulators
  \<^verbatim>\<open>interimTranscript\<close> and \<^verbatim>\<open>finalText\<close>.
\<close>

function collect :: "result list \<Rightarrow> nat \<Rightarrow> string \<times> string \<Rightarrow> string \<times> string" where
  "collect rs i (interim, finalText) =
     (if i < length rs
      then (if isFinal (rs ! i)
            then collect rs (Suc i) (interim, finalText @ text0 (rs ! i))
            else collect rs (Suc i) (interim @ text0 (rs ! i), finalText))
      else (interim, finalText))"
  by pat_completeness auto
termination
  by (relation "measure (\<lambda>(rs, i, acc). length rs - i)") auto

declare collect.simps [simp del]

text \<open>
  The \<^verbatim>\<open>result\<close> listener (lines 96--139). Its first part (lines 97--115) cancels the
  pending inactivity timer and, when the watchdog is enabled and the shadow flag is set,
  schedules a new one.
\<close>

definition rearm :: "options \<Rightarrow> session \<Rightarrow> session" where
  "rearm opts s =
     (let s1 = (case inactivityTimeoutRef s of None \<Rightarrow> s | Some h \<Rightarrow> clearTimeout h s)
      in if timeout opts > 0 \<and> isListeningRef s1
         then (case setTimeout Inactivity (nat (timeout opts)) s1 of
                 (h, s') \<Rightarrow> s'\<lparr>inactivityTimeoutRef := Some h\<rparr>)
         else s1)"

definition on_result :: "options \<Rightarrow> result_event \<Rightarrow> session \<Rightarrow> session" where
  "on_result opts ev s =
     (let s2 = rearm opts s
      in case collect (results ev) (resultIndex ev) ([], []) of
           (interim, finalText) \<Rightarrow>
             (let s3 = (if finalText \<noteq> []
                        then notify (onResult opts) (OnResult finalText True)
                               (s2\<lparr>finalTranscript := finalTranscript s2 @ finalText\<rparr>)
                        else s2)
              in if interim \<noteq> []
                 then notify (onResult opts) (OnResult interim False) (s3\<lparr>transcript := interim\<rparr>)
                 else s3))"

text \<open>The \<^verbatim>\<open>error\<close> listener (lines 141--163).\<close>

definition on_error :: "options \<Rightarrow> string \<Rightarrow> session \<Rightarrow> session" where
  "on_error opts err s =
     (if err = ''aborted'' then s
      else if err = ''no-speech'' then s
      else (let s1 = notify (onError opts) (OnError err) s in
            if err = ''network'' \<or> err = ''not-allowed'' then s1\<lparr>isListening := False\<rparr>
            else s1))"

text \<open>The \<^verbatim>\<open>end\<close> listener (lines 165--178).\<close>

definition on_end :: "options \<Rightarrow> session \<Rightarrow> session" where
  "on_end opts s =
     (let s1 = s\<lparr>isListeningRef := False\<rparr>;
          s2 = (if \<not> manuallyStoppedRef s1 then notify (onEnd opts) OnEnd s1 else s1)
      in if \<not> continuous opts \<or> manuallyStoppedRef s2
         then s2\<lparr>isListening := False, manuallyStopped := False, manuallyStoppedRef := False\<rparr>
         else s2)"

subsection \<open>Public methods\<close>

text \<open>\<^verbatim>\<open>startListening\<close> (lines 206--226).\<close>

definition startListening :: "engine \<Rightarrow> session \<Rightarrow> session outcome" where
  "startListening eng s =
     (if \<not> isSupported s \<or> \<not> recognitionRef s then Returned s
      else try_catch
             (\<lambda>s. call_prim eng Start
                    (s\<lparr>stopRequestedRef := False, isListening := True, isListeningRef := True,
                       manuallyStopped := False, manuallyStoppedRef := False,
                       forceStoppedRef := False, transcript := [], finalTranscript := []\<rparr>))
             (\<lambda>s. Returned (s\<lparr>isListening := False, isListeningRef := False\<rparr>))
             s)"

text \<open>\<^verbatim>\<open>stopListening\<close> (lines 228--267).\<close>

definition stopListening :: "engine \<Rightarrow> session \<Rightarrow> session outcome" where
  "stopListening eng s =
     (if \<not> recognitionRef s then Returned s
      else
        (let s1 = s\<lparr>stopRequestedRef := True, isListening := False, isListeningRef := False,
                    manuallyStopped := True, manuallyStoppedRef := True,
                    forceStoppedRef := True\<rparr>;
             s2 = (case inactivityTimeoutRef s1 of None \<Rightarrow> s1
                   | Some h \<Rightarrow> (clearTimeout h s1)\<lparr>inactivityTimeoutRef := None\<rparr>);
             s3 = (case audioendTimeoutRef s2 of None \<Rightarrow> s2
                   | Some h \<Rightarrow> (clearTimeout h s2)\<lparr>audioendTimeoutRef := None\<rparr>)
         in and_then
              (try_catch (call_prim eng Abort) (try_catch (call_prim eng Stop) Returned) s3)
              (\<lambda>s. Returned (s\<lparr>isListening := False, isListeningRef := False,
                               forceStoppedRef := True\<rparr>))))"

text \<open>\<^verbatim>\<open>resetTranscript\<close> (lines 269--272).\<close>

definition resetTranscript :: "session \<Rightarrow> session outcome" where
  "resetTranscript s = Returned (s\<lparr>transcript := [], finalTranscript := []\<rparr>)"

subsection \<open>Runs\<close>

definition fire :: "engine \<Rightarrow> timer \<Rightarrow> session \<Rightarrow> session" where
  "fire eng t s =
     (case kind t of
        Restart \<Rightarrow> state_of (restart_callback eng s)
      | Inactivity \<Rightarrow> state_of (inactivity_callback eng s))"

text \<open>
  Of the pending timers due by \<open>limit\<close>, the host fires first the one due earliest, and
  among equals the one scheduled first.
\<close>

fun next_due :: "nat \<Rightarrow> timer list \<Rightarrow> timer option" where
  "next_due limit [] = None"
| "next_due limit (t # ts) =
     (case next_due limit ts of
        None \<Rightarrow> if due t \<le> limit then Some t else None
      | Some u \<Rightarrow> if due t \<le> due u then Some t else Some u)"

text \<open>A timer fires: it leaves the pending timers, its callback runs, React commits.\<close>

definition after_timer :: "options \<Rightarrow> engine \<Rightarrow> timer \<Rightarrow> session \<Rightarrow> session" where
  "after_timer opts eng t s =
     (let s1 = s\<lparr>timers := remove1 t (timers s)\<rparr> in commit opts s1 (fire eng t s1))"

function fire_due :: "options \<Rightarrow> engine \<Rightarrow> nat \<Rightarrow> session \<Rightarrow> session" where
  "fire_due opts eng limit s =
     (case next_due limit (timers s) of
        None \<Rightarrow> s
      | Some t \<Rightarrow> fire_due opts eng limit (after_timer opts eng t s))"
  by pat_completeness auto
termination
proof (relation "measure (\<lambda>(opts, eng, limit, s). length (timers s))")
  show "wf (measure (\<lambda>(opts, eng, limit, s). length (timers s)))"
    by simp
next
  fix opts :: options and eng :: engine and limit :: nat and s :: session and t :: timer
  assume n: "next_due limit (timers s) = Some t"
  have mem: "next_due limit ts = Some u \<Longrightarrow> u \<in> set ts" for ts u
    by (induction ts arbitrary: u) (auto split: option.splits if_splits)
  let ?s1 = "s\<lparr>timers := remove1 t (timers s)\<rparr>"
  have f: "timers (fire eng t ?s1) = timers ?s1"
    by (cases "kind t")
       (simp_all add: fire_def restart_callback_def inactivity_callback_def try_catch_def
          call_prim_def)
  have c: "length (timers (cleanup x)) \<le> length (timers x)" for x
  proof -
    have "length (timers (clearTimeout h y)) \<le> length (timers y)" for h y
      by (simp add: clearTimeout_def)
    then show ?thesis
      by (auto simp: cleanup_def Let_def split: option.splits intro: order_trans)
  qed
  have "length (timers (commit opts ?s1 (fire eng t ?s1))) \<le> length (timers (fire eng t ?s1))"
    using c [of "fire eng t ?s1"]
    by (simp add: commit_def render_def rerun_def effect_def)
  moreover have "length (timers ?s1) < length (timers s)"
    using mem [OF n] by (simp add: length_remove1) (cases "timers s", simp_all)
  ultimately show "((opts, eng, limit, after_timer opts eng t s), (opts, eng, limit, s))
          \<in> measure (\<lambda>(opts, eng, limit, s). length (timers s))"
    by (simp add: after_timer_def Let_def f)
qed

declare fire_due.simps [simp del]

text \<open>
  \<open>elapse\<close> lets \<open>d\<close> milliseconds pass with no other event: the host fires the timers
  due by then, one after the other.
\<close>

definition elapse :: "options \<Rightarrow> engine \<Rightarrow> nat \<Rightarrow> session \<Rightarrow> session" where
  "elapse opts eng d s = (fire_due opts eng (clock s + d) s)\<lparr>clock := clock s + d\<rparr>"

text \<open>
  What can happen to a mounted hook: the four engine events, a call of one of the three
  public methods, time passing, a render of the consumer for a reason of its own, and
  the unmount.
\<close>

datatype event =
    EvAudioend
  | EvResult result_event
  | EvError string
  | EvEnd
  | CallStart
  | CallStop
  | CallReset
  | Elapse nat
  | Render
  | Unmount

fun handle_event :: "options \<Rightarrow> engine \<Rightarrow> session \<Rightarrow> event \<Rightarrow> session" where
  "handle_event opts eng s EvAudioend = on_audioend opts s"
| "handle_event opts eng s (EvResult ev) = on_result opts ev s"
| "handle_event opts eng s (EvError err) = on_error opts err s"
| "handle_event opts eng s EvEnd = on_end opts s"
| "handle_event opts eng s CallStart = state_of (startListening eng s)"
| "handle_event opts eng s CallStop = state_of (stopListening eng s)"
| "handle_event opts eng s CallReset = state_of (resetTranscript s)"
| "handle_event opts eng s (Elapse d) = elapse opts eng d s"
| "handle_event opts eng s Render = render opts s"
| "handle_event opts eng s Unmount = cleanup s"

definition step :: "options \<Rightarrow> engine \<Rightarrow> session \<Rightarrow> event \<Rightarrow> session" where
  "step opts eng s e =
     (case e of
        Elapse d \<Rightarrow> handle_event opts eng s e
      | Render \<Rightarrow> handle_event opts eng s e
      | Unmount \<Rightarrow> handle_event opts eng s e
      | _ \<Rightarrow> commit opts s (handle_event opts eng s e))"

definition run :: "options \<Rightarrow> engine \<Rightarrow> session \<Rightarrow> event list \<Rightarrow> session" where
  "run opts eng s es = foldl (step opts eng) s es"

subsection \<open>Notions used in the statements\<close>

text \<open>
  The interim and the final text of a \<^verbatim>\<open>result\<close> event: the transcripts of its non-final
  and of its final results, from the cursor on, concatenated in order.
\<close>

definition interim_text :: "result_event \<Rightarrow> string" where
  "interim_text ev =
     concat (map text0 (filter (\<lambda>r. \<not> isFinal r) (drop (resultIndex ev) (results ev))))"

definition final_text :: "result_event \<Rightarrow> string" where
  "final_text ev = concat (map text0 (filter isFinal (drop (resultIndex ev) (results ev))))"

text \<open>Cancelling the timer a ref holds, and the engine calls \<^verbatim>\<open>stopListening\<close> makes.\<close>

definition cancel :: "nat option \<Rightarrow> timer list \<Rightarrow> timer list" where
  "cancel r ts = (case r of None \<Rightarrow> ts | Some h \<Rightarrow> filter (\<lambda>t. handle t \<noteq> h) ts)"

definition halt_calls :: "engine \<Rightarrow> session \<Rightarrow> call list" where
  "halt_calls eng s =
     (if eng (calls s) Abort then calls s @ [logged Abort s, logged Stop s]
      else calls s @ [logged Abort s])"

text \<open>The defaults of the options (lines 28--37), an engine that never throws and one that always does.\<close>

definition default_options :: options where
  "default_options =
     \<lparr>continuous = True, interimResults = True, lang = ''en-US'', timeout = 3000,
      onResult = False, onEnd = False, onError = False, mobileOptimized = False,
      inlineCallbacks = False\<rparr>"

definition reliable :: engine where
  "reliable cs p = False"

definition failing :: engine where
  "failing cs p = True"

definition starts :: "session \<Rightarrow> nat" where
  "starts s = count_list (map invoked (calls s)) Start"

definition aborts :: "session \<Rightarrow> nat" where
  "aborts s = count_list (map invoked (calls s)) Abort"


text \<open>
  A session in which no restart can happen: a stop has been requested, or there is no
  engine binding. And a session whose pending inactivity timers are all the one the
  ref holds.
\<close>

definition blocked :: "session \<Rightarrow> bool" where
  "blocked s = (stopRequestedRef s \<or> \<not> recognitionRef s)"

definition single_watchdog :: "session \<Rightarrow> bool" where
  "single_watchdog s =
     list_all (\<lambda>t. kind t = Restart \<or> inactivityTimeoutRef s = Some (handle t)) (timers s)"

text \<open>
  Events that leave a pending inactivity timer and its guard alone, and the time that
  passes in a list of events.
\<close>

fun quiet :: "event \<Rightarrow> bool" where
  "quiet (EvError err) = (err = ''aborted'' \<or> err = ''no-speech'')"
| "quiet CallReset = True"
| "quiet (Elapse d) = True"
| "quiet Render = True"
| "quiet e = False"

fun elapsed :: "event list \<Rightarrow> nat" where
  "elapsed [] = 0"
| "elapsed (Elapse d # es) = d + elapsed es"
| "elapsed (e # es) = elapsed es"

section \<open>Basic facts\<close>

subsection \<open>Mounting, rendering\<close>

lemma init_eq:
  "init has_engine =
     \<lparr>isSupported = has_engine, isListening = False, transcript = [], finalTranscript = [],
      manuallyStopped = False, isListeningRef = False, manuallyStoppedRef = False,
      forceStoppedRef = False, stopRequestedRef = False, recognitionRef = has_engine,
      inactivityTimeoutRef = None, audioendTimeoutRef = None, timers = [], clock = 0,
      nextHandle = 1, calls = [], callbacks = []\<rparr>"
  by (simp add: init_def effect_def blank_def)

lemma commit_stable: "\<not> deps_change opts \<Longrightarrow> commit opts s s' = s'"
  by (simp add: commit_def render_def)

lemma deps_change_default [simp]: "\<not> deps_change default_options"
  by (simp add: deps_change_def default_options_def)

lemma step_simps:
  "step opts eng s EvAudioend = commit opts s (on_audioend opts s)"
  "step opts eng s (EvResult ev) = commit opts s (on_result opts ev s)"
  "step opts eng s (EvError err) = commit opts s (on_error opts err s)"
  "step opts eng s EvEnd = commit opts s (on_end opts s)"
  "step opts eng s CallStart = commit opts s (state_of (startListening eng s))"
  "step opts eng s CallStop = commit opts s (state_of (stopListening eng s))"
  "step opts eng s CallReset = commit opts s (state_of (resetTranscript s))"
  "step opts eng s (Elapse d) = elapse opts eng d s"
  "step opts eng s Render = render opts s"
  "step opts eng s Unmount = cleanup s"
  by (simp_all add: step_def)



lemma run_append: "run opts eng s (es @ fs) = run opts eng (run opts eng s es) fs"
  by (simp add: run_def)

lemma rerun_closed:
  "rerun s =
     s\<lparr>timers := cancel (audioendTimeoutRef s) (cancel (inactivityTimeoutRef s) (timers s)),
       isSupported := isSupported s \<or> recognitionRef s\<rparr>"
  by (cases "inactivityTimeoutRef s"; cases "audioendTimeoutRef s")
     (auto simp: rerun_def effect_def cleanup_def clearTimeout_def cancel_def Let_def)

lemma cleanup_closed:
  "cleanup s =
     s\<lparr>timers := cancel (audioendTimeoutRef s) (cancel (inactivityTimeoutRef s) (timers s))\<rparr>"
  by (cases "inactivityTimeoutRef s"; cases "audioendTimeoutRef s")
     (simp_all add: cleanup_def clearTimeout_def cancel_def Let_def)

lemma fire_due_idle:
  "next_due limit (timers s) = None \<Longrightarrow> fire_due opts eng limit s = s"
  by (subst fire_due.simps) simp

lemma fire_due_next:
  "next_due limit (timers s) = Some t \<Longrightarrow>
     fire_due opts eng limit s = fire_due opts eng limit (after_timer opts eng t s)"
  by (subst fire_due.simps) simp

subsection \<open>The result loop\<close>

lemma collect_eq:
  "collect rs i (a, b) =
     (a @ concat (map text0 (filter (\<lambda>r. \<not> isFinal r) (drop i rs))),
      b @ concat (map text0 (filter isFinal (drop i rs))))"
proof (induction rs i "(a, b)" arbitrary: a b rule: collect.induct)
  case (1 rs i interim finalText)
  show ?case
  proof (cases "i < length rs")
    case True
    then have d: "drop i rs = rs ! i # drop (Suc i) rs"
      by (simp add: Cons_nth_drop_Suc)
    show ?thesis
      using True 1 by (subst collect.simps) (simp add: d)
  next
    case False
    then show ?thesis by (subst collect.simps) simp
  qed
qed

lemma collect_texts:
  "collect (results ev) (resultIndex ev) ([], []) = (interim_text ev, final_text ev)"
  by (simp add: collect_eq interim_text_def final_text_def)

lemma on_result_closed:
  "on_result opts ev s =
     (let s2 = rearm opts s;
          s3 = (if final_text ev \<noteq> []
                then notify (onResult opts) (OnResult (final_text ev) True)
                       (s2\<lparr>finalTranscript := finalTranscript s2 @ final_text ev\<rparr>)
                else s2)
      in if interim_text ev \<noteq> []
         then notify (onResult opts) (OnResult (interim_text ev) False)
                (s3\<lparr>transcript := interim_text ev\<rparr>)
         else s3)"
  by (simp add: on_result_def collect_texts Let_def)

lemma rearm_transcript: "transcript (rearm opts s) = transcript s"
  by (simp add: rearm_def setTimeout_def clearTimeout_def Let_def split: option.splits)

lemma rearm_finalTranscript: "finalTranscript (rearm opts s) = finalTranscript s"
  by (simp add: rearm_def setTimeout_def clearTimeout_def Let_def split: option.splits)

lemma notify_transcript: "transcript (notify b c s) = transcript s"
  by (simp add: notify_def)

lemma notify_finalTranscript: "finalTranscript (notify b c s) = finalTranscript s"
  by (simp add: notify_def)

lemma on_result_transcript:
  "transcript (on_result opts ev s) =
     (if interim_text ev = [] then transcript s else interim_text ev)"
  by (simp add: on_result_closed Let_def rearm_transcript notify_transcript)

lemma on_result_finalTranscript:
  "finalTranscript (on_result opts ev s) = finalTranscript s @ final_text ev"
  by (simp add: on_result_closed Let_def rearm_finalTranscript notify_finalTranscript)

subsection \<open>The public methods in closed form\<close>

lemma halt_returns:
  "try_catch (call_prim eng Abort) (try_catch (call_prim eng Stop) Returned) s
     = Returned (s\<lparr>calls := halt_calls eng s\<rparr>)"
  by (simp add: try_catch_def call_prim_def halt_calls_def logged_def)

lemma stop_closed:
  "recognitionRef s \<Longrightarrow> stopListening eng s =
     Returned (s\<lparr>stopRequestedRef := True, isListening := False, isListeningRef := False,
                 manuallyStopped := True, manuallyStoppedRef := True, forceStoppedRef := True,
                 inactivityTimeoutRef := None, audioendTimeoutRef := None,
                 timers := cancel (audioendTimeoutRef s) (cancel (inactivityTimeoutRef s) (timers s)),
                 calls := halt_calls eng s\<rparr>)"
  unfolding stopListening_def Let_def halt_returns
  by (cases "inactivityTimeoutRef s"; cases "audioendTimeoutRef s")
     (simp_all add: clearTimeout_def cancel_def halt_calls_def logged_def)

lemma stop_unbound: "\<not> recognitionRef s \<Longrightarrow> stopListening eng s = Returned s"
  by (simp add: stopListening_def)

lemma start_closed:
  "isSupported s \<Longrightarrow> recognitionRef s \<Longrightarrow> startListening eng s =
     Returned (s\<lparr>stopRequestedRef := False, isListening := \<not> eng (calls s) Start,
                 isListeningRef := \<not> eng (calls s) Start,
                 manuallyStopped := False, manuallyStoppedRef := False,
                 forceStoppedRef := False, transcript := [], finalTranscript := [],
                 calls := calls s @ [\<lparr>invoked = Start, sawTranscript = [], sawFinal = []\<rparr>]\<rparr>)"
  by (simp add: startListening_def try_catch_def call_prim_def logged_def)

lemma start_unbound:
  "\<not> isSupported s \<or> \<not> recognitionRef s \<Longrightarrow> startListening eng s = Returned s"
  by (auto simp: startListening_def)

section \<open>The claims\<close>

text \<open>
  C10. When no engine binding exists, \<^verbatim>\<open>stopListening()\<close> returns at once and is a complete
  no-op: no flag is set, no timer is cancelled, every field of the session state is as
  it was.
\<close>

theorem stop_without_binding_is_noop:
  "\<not> recognitionRef s \<Longrightarrow> stopListening eng s = Returned s"
  by (simp add: stopListening_def)

theorem stop_without_binding_is_noop_witness:
  "\<not> recognitionRef (init False)
   \<and> stopListening failing (init False) = Returned (init False)"
  using stop_without_binding_is_noop [of "init False" failing]
  by (simp add: init_eq)

text \<open>
  C8. On an engine \<^verbatim>\<open>error\<close> event, the kinds \<^verbatim>\<open>no-speech\<close> and \<^verbatim>\<open>aborted\<close> never invoke
  \<^verbatim>\<open>onError\<close> and leave \<^verbatim>\<open>isListening\<close> (indeed the whole state) unchanged; any other
  kind invokes the supplied \<^verbatim>\<open>onError\<close> with that kind exactly once and invokes no other
  callback, and for the kinds \<^verbatim>\<open>not-allowed\<close> and \<^verbatim>\<open>network\<close> it sets \<^verbatim>\<open>isListening\<close> to
  false, while every other kind leaves it as it was.
\<close>

theorem error_event_classified:
  "(err = ''no-speech'' \<or> err = ''aborted'' \<longrightarrow> on_error opts err s = s)
   \<and> (err \<noteq> ''no-speech'' \<and> err \<noteq> ''aborted'' \<longrightarrow>
        callbacks (on_error opts err s)
          = callbacks s @ (if onError opts then [OnError err] else [])
        \<and> isListening (on_error opts err s)
            = (if err = ''not-allowed'' \<or> err = ''network'' then False else isListening s))"
  by (simp add: on_error_def notify_def Let_def)

theorem error_event_classified_witness:
  "on_error (default_options\<lparr>onError := True\<rparr>) ''no-speech'' ((init True)\<lparr>isListening := True\<rparr>)
     = (init True)\<lparr>isListening := True\<rparr>
   \<and> callbacks (on_error (default_options\<lparr>onError := True\<rparr>) ''not-allowed''
        ((init True)\<lparr>isListening := True\<rparr>)) = [OnError ''not-allowed'']
   \<and> \<not> isListening (on_error (default_options\<lparr>onError := True\<rparr>) ''not-allowed''
        ((init True)\<lparr>isListening := True\<rparr>))"
  using error_event_classified
          [of "''no-speech''" "default_options\<lparr>onError := True\<rparr>" "(init True)\<lparr>isListening := True\<rparr>"]
        error_event_classified
          [of "''not-allowed''" "default_options\<lparr>onError := True\<rparr>" "(init True)\<lparr>isListening := True\<rparr>"]
  by (simp add: init_eq default_options_def)

text \<open>
  C9. No public method throws, whatever the engine's primitives do: \<^verbatim>\<open>startListening\<close>,
  \<^verbatim>\<open>stopListening\<close> and \<^verbatim>\<open>resetTranscript\<close> always return. When the start primitive
  throws, \<^verbatim>\<open>startListening\<close> returns with both listening flags false; when an engine
  binding exists, \<^verbatim>\<open>stopListening\<close> returns with the flags converged (stop requested,
  not listening, manually and force stopped, both timer handles null), even if abort
  and stop both throw.
\<close>

theorem public_methods_never_throw:
  "(\<exists>s'. startListening eng s = Returned s'
          \<and> (isSupported s \<and> recognitionRef s \<and> eng (calls s) Start
               \<longrightarrow> \<not> isListening s' \<and> \<not> isListeningRef s'))
   \<and> (\<exists>s'. stopListening eng s = Returned s'
          \<and> (recognitionRef s \<longrightarrow>
                stopRequestedRef s' \<and> \<not> isListening s' \<and> \<not> isListeningRef s'
                \<and> manuallyStopped s' \<and> manuallyStoppedRef s' \<and> forceStoppedRef s'
                \<and> inactivityTimeoutRef s' = None \<and> audioendTimeoutRef s' = None))
   \<and> (\<exists>s'. resetTranscript s = Returned s')"
proof (intro conjI)
  show "\<exists>s'. startListening eng s = Returned s'
          \<and> (isSupported s \<and> recognitionRef s \<and> eng (calls s) Start
               \<longrightarrow> \<not> isListening s' \<and> \<not> isListeningRef s')"
  proof (cases "isSupported s \<and> recognitionRef s")
    case True
    then show ?thesis by (simp add: start_closed)
  next
    case False
    then show ?thesis by (auto simp: start_unbound)
  qed
  show "\<exists>s'. stopListening eng s = Returned s'
          \<and> (recognitionRef s \<longrightarrow>
                stopRequestedRef s' \<and> \<not> isListening s' \<and> \<not> isListeningRef s'
                \<and> manuallyStopped s' \<and> manuallyStoppedRef s' \<and> forceStoppedRef s'
                \<and> inactivityTimeoutRef s' = None \<and> audioendTimeoutRef s' = None)"
  proof (cases "recognitionRef s")
    case True
    then show ?thesis by (simp add: stop_closed)
  next
    case False
    then show ?thesis by (simp add: stop_unbound)
  qed
  show "\<exists>s'. resetTranscript s = Returned s'"
    by (simp add: resetTranscript_def)
qed

theorem public_methods_never_throw_witness:
  "isSupported (init True) \<and> recognitionRef (init True) \<and> failing (calls (init True)) Start
   \<and> (\<exists>s'. startListening failing (init True) = Returned s'
            \<and> \<not> isListening s' \<and> \<not> isListeningRef s')
   \<and> (\<exists>s'. stopListening failing (init True) = Returned s'
            \<and> stopRequestedRef s' \<and> \<not> isListening s' \<and> \<not> isListeningRef s'
            \<and> manuallyStopped s' \<and> manuallyStoppedRef s' \<and> forceStoppedRef s'
            \<and> inactivityTimeoutRef s' = None \<and> audioendTimeoutRef s' = None)
   \<and> (\<exists>s'. resetTranscript (init True) = Returned s')"
  using public_methods_never_throw [of failing "init True"]
  by (simp add: init_eq failing_def)

text \<open>
  C5. Calling \<^verbatim>\<open>stopListening()\<close> twice in a row leaves the session state exactly as one
  call does: the stop-requested flag, both listening flags, both manually-stopped flags,
  the force-stopped flag, both timer handles, both transcripts, and also the pending
  timers. Only the log of engine calls differs, since the second call invokes the
  abort primitive once more.
\<close>

theorem stop_twice_same_state:
  "state_of (stopListening eng (state_of (stopListening eng s)))
     = (state_of (stopListening eng s))
         \<lparr>calls := calls (state_of (stopListening eng (state_of (stopListening eng s))))\<rparr>"
proof (cases "recognitionRef s")
  case True
  then show ?thesis by (simp add: stop_closed cancel_def)
next
  case False
  then show ?thesis by (simp add: stop_unbound)
qed

text \<open>
  C3 (as stated). After every \<^verbatim>\<open>result\<close> event the interim transcript equals the
  concatenation of that event's interim hypotheses, also when the event carries none.
  This fails: after an interim result \<^verbatim>\<open>milk\<close>, an event carrying only the final result
  \<^verbatim>\<open>milk\<close> has empty interim text, yet the interim transcript is still \<^verbatim>\<open>milk\<close>.
\<close>

theorem interim_not_replaced_by_empty_counterexample:
  "interim_text \<lparr>resultIndex = 0, results = [\<lparr>isFinal = True, text0 = ''milk''\<rparr>]\<rparr> = []
   \<and> transcript
        (run default_options reliable (init True)
           [CallStart,
            EvResult \<lparr>resultIndex = 0, results = [\<lparr>isFinal = False, text0 = ''milk''\<rparr>]\<rparr>,
            EvResult \<lparr>resultIndex = 0, results = [\<lparr>isFinal = True, text0 = ''milk''\<rparr>]\<rparr>])
       = ''milk''"
  by (simp add: run_def step_simps commit_stable on_result_transcript interim_text_def
        start_closed init_eq)

text \<open>
  C3 (amended). On every \<^verbatim>\<open>result\<close> event whose interim text is not empty, the interim
  transcript afterwards is exactly that text: it is replaced wholesale, never appended
  to. An event whose interim text is empty leaves the interim transcript as it was.
\<close>

theorem interim_replaced_when_present:
  "transcript (on_result opts ev s)
     = (if interim_text ev = [] then transcript s else interim_text ev)"
  by (simp add: on_result_closed Let_def rearm_transcript notify_transcript)

theorem interim_replaced_when_present_witness:
  "transcript (on_result default_options
       \<lparr>resultIndex = 1, results = [\<lparr>isFinal = True, text0 = ''two ''\<rparr>,
                                   \<lparr>isFinal = False, text0 = ''eg''\<rparr>,
                                   \<lparr>isFinal = False, text0 = ''gs''\<rparr>]\<rparr>
       ((init True)\<lparr>transcript := ''milk''\<rparr>)) = ''eggs''"
  using interim_replaced_when_present
          [of default_options
              "\<lparr>resultIndex = 1, results = [\<lparr>isFinal = True, text0 = ''two ''\<rparr>,
                                   \<lparr>isFinal = False, text0 = ''eg''\<rparr>,
                                   \<lparr>isFinal = False, text0 = ''gs''\<rparr>]\<rparr>"
              "(init True)\<lparr>transcript := ''milk''\<rparr>"]
  by (simp add: interim_text_def)

text \<open>
  C6. A \<^verbatim>\<open>result\<close> event whose results (from the cursor on) are all interim leaves
  \<^verbatim>\<open>finalTranscript\<close> unchanged, and one whose results are all final leaves the interim
  transcript (the public \<^verbatim>\<open>transcript\<close> field) unchanged.
\<close>

theorem result_event_frame:
  "((\<forall>r \<in> set (drop (resultIndex ev) (results ev)). \<not> isFinal r)
      \<longrightarrow> finalTranscript (on_result opts ev s) = finalTranscript s)
   \<and> ((\<forall>r \<in> set (drop (resultIndex ev) (results ev)). isFinal r)
      \<longrightarrow> transcript (on_result opts ev s) = transcript s)"
proof (intro conjI impI)
  assume "\<forall>r \<in> set (drop (resultIndex ev) (results ev)). \<not> isFinal r"
  then have "filter isFinal (drop (resultIndex ev) (results ev)) = []"
    by (simp add: filter_empty_conv)
  then show "finalTranscript (on_result opts ev s) = finalTranscript s"
    by (simp add: on_result_finalTranscript final_text_def)
next
  assume "\<forall>r \<in> set (drop (resultIndex ev) (results ev)). isFinal r"
  then have "filter (\<lambda>r. \<not> isFinal r) (drop (resultIndex ev) (results ev)) = []"
    by (simp add: filter_empty_conv)
  then show "transcript (on_result opts ev s) = transcript s"
    by (simp add: on_result_transcript interim_text_def)
qed

theorem result_event_frame_witness:
  "finalTranscript (on_result default_options
        \<lparr>resultIndex = 0, results = [\<lparr>isFinal = False, text0 = ''mi''\<rparr>]\<rparr>
        ((init True)\<lparr>transcript := ''a'', finalTranscript := ''b''\<rparr>)) = ''b''
   \<and> transcript (on_result default_options
        \<lparr>resultIndex = 0, results = [\<lparr>isFinal = True, text0 = ''milk''\<rparr>]\<rparr>
        ((init True)\<lparr>transcript := ''a'', finalTranscript := ''b''\<rparr>)) = ''a''"
  using result_event_frame
          [of "\<lparr>resultIndex = 0, results = [\<lparr>isFinal = False, text0 = ''mi''\<rparr>]\<rparr>"
              default_options "(init True)\<lparr>transcript := ''a'', finalTranscript := ''b''\<rparr>"]
        result_event_frame
          [of "\<lparr>resultIndex = 0, results = [\<lparr>isFinal = True, text0 = ''milk''\<rparr>]\<rparr>"
              default_options "(init True)\<lparr>transcript := ''a'', finalTranscript := ''b''\<rparr>"]
  by simp

subsection \<open>The timer callbacks in closed form\<close>

lemma restart_closed:
  "restart_callback eng s =
     Returned (if isListeningRef s \<and> \<not> manuallyStoppedRef s \<and> \<not> forceStoppedRef s
                  \<and> \<not> stopRequestedRef s \<and> recognitionRef s
               then s\<lparr>calls := calls s @ [logged Start s], isListeningRef := True\<rparr>
               else s)"
  by (simp add: restart_callback_def try_catch_def call_prim_def)

lemma inactivity_closed:
  "inactivity_callback eng s =
     Returned (if isListeningRef s \<and> recognitionRef s \<and> \<not> manuallyStoppedRef s
               then (if eng (calls s) Abort then s\<lparr>calls := calls s @ [logged Abort s]\<rparr>
                     else s\<lparr>calls := calls s @ [logged Abort s], isListening := False,
                            isListeningRef := False\<rparr>)
               else s)"
  by (simp add: inactivity_callback_def try_catch_def call_prim_def)

lemma fire_transcript: "transcript (fire eng t s) = transcript s"
  by (cases "kind t") (simp_all add: fire_def restart_closed inactivity_closed)

lemma fire_finalTranscript: "finalTranscript (fire eng t s) = finalTranscript s"
  by (cases "kind t") (simp_all add: fire_def restart_closed inactivity_closed)


lemma fire_stopRequestedRef: "stopRequestedRef (fire eng t s) = stopRequestedRef s"
  by (cases "kind t") (simp_all add: fire_def restart_closed inactivity_closed)

lemma fire_recognitionRef: "recognitionRef (fire eng t s) = recognitionRef s"
  by (cases "kind t") (simp_all add: fire_def restart_closed inactivity_closed)


lemma fire_timers: "timers (fire eng t s) = timers s"
  by (cases "kind t") (simp_all add: fire_def restart_closed inactivity_closed)

lemma fire_inactivityTimeoutRef: "inactivityTimeoutRef (fire eng t s) = inactivityTimeoutRef s"
  by (cases "kind t") (simp_all add: fire_def restart_closed inactivity_closed)

lemma fire_audioendTimeoutRef: "audioendTimeoutRef (fire eng t s) = audioendTimeoutRef s"
  by (cases "kind t") (simp_all add: fire_def restart_closed inactivity_closed)

lemma fire_isSupported: "isSupported (fire eng t s) = isSupported s"
  by (cases "kind t") (simp_all add: fire_def restart_closed inactivity_closed)

subsection \<open>What a commit and a firing timer leave alone\<close>

lemma commit_cases: "commit opts s s' = s' \<or> commit opts s s' = rerun s'"
  by (simp add: commit_def render_def)

lemma render_cases: "render opts s = s \<or> render opts s = rerun s"
  by (simp add: render_def)

lemma after_timer_cases:
  "after_timer opts eng t s = fire eng t (s\<lparr>timers := remove1 t (timers s)\<rparr>)
   \<or> after_timer opts eng t s = rerun (fire eng t (s\<lparr>timers := remove1 t (timers s)\<rparr>))"
  using commit_cases [of opts "s\<lparr>timers := remove1 t (timers s)\<rparr>"
                        "fire eng t (s\<lparr>timers := remove1 t (timers s)\<rparr>)"]
  by (simp add: after_timer_def Let_def)

lemma fire_due_frame:
  "(\<And>t s. f (after_timer opts eng t s) = f s) \<Longrightarrow> f (fire_due opts eng limit s) = f s"
proof (induction opts eng limit s rule: fire_due.induct)
  case (1 opts eng limit s)
  show ?case
  proof (cases "next_due limit (timers s)")
    case None
    then show ?thesis by (simp add: fire_due_idle)
  next
    case (Some t)
    with "1.IH" [OF Some] "1.prems" show ?thesis
      by (simp add: fire_due_next)
  qed
qed

lemma after_timer_transcript: "transcript (after_timer opts eng t s) = transcript s"
  using after_timer_cases [of opts eng t s] by (auto simp: rerun_closed fire_transcript)

lemma after_timer_finalTranscript:
  "finalTranscript (after_timer opts eng t s) = finalTranscript s"
  using after_timer_cases [of opts eng t s] by (auto simp: rerun_closed fire_finalTranscript)


lemma after_timer_inactivityTimeoutRef:
  "inactivityTimeoutRef (after_timer opts eng t s) = inactivityTimeoutRef s"
  using after_timer_cases [of opts eng t s]
  by (auto simp: rerun_closed fire_inactivityTimeoutRef)

lemma elapse_transcript: "transcript (elapse opts eng d s) = transcript s"
  by (simp add: elapse_def fire_due_frame [of transcript, OF after_timer_transcript])

lemma elapse_finalTranscript: "finalTranscript (elapse opts eng d s) = finalTranscript s"
  by (simp add: elapse_def
        fire_due_frame [of finalTranscript, OF after_timer_finalTranscript])


lemma commit_transcript: "transcript (commit opts s s') = transcript s'"
  using commit_cases [of opts s s'] by (auto simp: rerun_closed)

lemma commit_finalTranscript: "finalTranscript (commit opts s s') = finalTranscript s'"
  using commit_cases [of opts s s'] by (auto simp: rerun_closed)

lemma render_transcript: "transcript (render opts s) = transcript s"
  using render_cases [of opts s] by (auto simp: rerun_closed)

lemma render_finalTranscript: "finalTranscript (render opts s) = finalTranscript s"
  using render_cases [of opts s] by (auto simp: rerun_closed)

subsection \<open>The other listeners\<close>

lemma audioend_closed: "on_audioend opts s = s\<lparr>isListeningRef := False\<rparr>"
  by (simp add: on_audioend_def Let_def)

lemma on_end_transcript: "transcript (on_end opts s) = transcript s"
  by (simp add: on_end_def Let_def notify_def)

lemma on_end_finalTranscript: "finalTranscript (on_end opts s) = finalTranscript s"
  by (simp add: on_end_def Let_def notify_def)

lemma on_error_transcript: "transcript (on_error opts err s) = transcript s"
  by (simp add: on_error_def Let_def notify_def)

lemma on_error_finalTranscript: "finalTranscript (on_error opts err s) = finalTranscript s"
  by (simp add: on_error_def Let_def notify_def)

lemma stop_transcript: "transcript (state_of (stopListening eng s)) = transcript s"
  by (cases "recognitionRef s") (simp_all add: stop_closed stop_unbound)

lemma stop_finalTranscript: "finalTranscript (state_of (stopListening eng s)) = finalTranscript s"
  by (cases "recognitionRef s") (simp_all add: stop_closed stop_unbound)

lemma start_transcripts:
  "(transcript (state_of (startListening eng s)) = []
      \<and> finalTranscript (state_of (startListening eng s)) = [])
   \<or> (transcript (state_of (startListening eng s)) = transcript s
      \<and> finalTranscript (state_of (startListening eng s)) = finalTranscript s)"
  by (cases "isSupported s \<and> recognitionRef s") (auto simp: start_closed start_unbound)

lemma handle_event_transcripts:
  "(transcript (handle_event opts eng s e) = [] \<and> finalTranscript (handle_event opts eng s e) = [])
   \<or> ((transcript (handle_event opts eng s e) = [] \<longrightarrow> transcript s = [])
      \<and> (finalTranscript (handle_event opts eng s e) = [] \<longrightarrow> finalTranscript s = []))"
proof (cases e)
  case CallStart
  then show ?thesis using start_transcripts [of eng s] by auto
next
  case (EvResult ev)
  then show ?thesis by (simp add: on_result_transcript on_result_finalTranscript)
qed (simp_all add: audioend_closed on_end_transcript on_end_finalTranscript
       on_error_transcript on_error_finalTranscript stop_transcript stop_finalTranscript
       elapse_transcript elapse_finalTranscript resetTranscript_def
       render_transcript render_finalTranscript cleanup_closed)

lemma step_handle_event:
  "transcript (step opts eng s e) = transcript (handle_event opts eng s e)
   \<and> finalTranscript (step opts eng s e) = finalTranscript (handle_event opts eng s e)"
  by (cases e) (simp_all add: step_def commit_transcript commit_finalTranscript)

lemma step_transcripts:
  "(transcript (step opts eng s e) = [] \<and> finalTranscript (step opts eng s e) = [])
   \<or> ((transcript (step opts eng s e) = [] \<longrightarrow> transcript s = [])
      \<and> (finalTranscript (step opts eng s e) = [] \<longrightarrow> finalTranscript s = []))"
  using handle_event_transcripts [of opts eng s e] by (simp add: step_handle_event)

text \<open>
  C7. Every call of \<^verbatim>\<open>startListening()\<close> with capability and engine binding present
  sets both transcripts to empty before the engine's start primitive is invoked: the
  call of the primitive is logged with both transcripts seen empty, whatever they were
  when the method was called, and both are empty when the method returns, whether or
  not the primitive throws. Moreover the two transcripts are only ever cleared together:
  no event, timer, render or method call empties one that was not empty without leaving
  both empty.
\<close>

theorem start_clears_transcripts_first:
  "(isSupported s \<and> recognitionRef s \<longrightarrow>
      calls (state_of (startListening eng s))
        = calls s @ [\<lparr>invoked = Start, sawTranscript = [], sawFinal = []\<rparr>]
      \<and> transcript (state_of (startListening eng s)) = []
      \<and> finalTranscript (state_of (startListening eng s)) = [])
   \<and> (transcript (step opts eng s e) = [] \<and> transcript s \<noteq> []
        \<longrightarrow> finalTranscript (step opts eng s e) = [])
   \<and> (finalTranscript (step opts eng s e) = [] \<and> finalTranscript s \<noteq> []
        \<longrightarrow> transcript (step opts eng s e) = [])"
proof (intro conjI impI)
  assume b: "isSupported s \<and> recognitionRef s"
  have "startListening eng s
          = try_catch
              (\<lambda>s. call_prim eng Start
                     (s\<lparr>stopRequestedRef := False, isListening := True, isListeningRef := True,
                        manuallyStopped := False, manuallyStoppedRef := False,
                        forceStoppedRef := False, transcript := [], finalTranscript := []\<rparr>))
              (\<lambda>s. Returned (s\<lparr>isListening := False, isListeningRef := False\<rparr>)) s"
    using b by (simp add: startListening_def)
  then show "calls (state_of (startListening eng s))
               = calls s @ [\<lparr>invoked = Start, sawTranscript = [], sawFinal = []\<rparr>]"
    by (simp add: try_catch_def call_prim_def logged_def)
  show "transcript (state_of (startListening eng s)) = []"
    using b by (simp add: start_closed)
  show "finalTranscript (state_of (startListening eng s)) = []"
    using b by (simp add: start_closed)
next
  assume "transcript (step opts eng s e) = [] \<and> transcript s \<noteq> []"
  then show "finalTranscript (step opts eng s e) = []"
    using step_transcripts [of opts eng s e] by auto
next
  assume "finalTranscript (step opts eng s e) = [] \<and> finalTranscript s \<noteq> []"
  then show "transcript (step opts eng s e) = []"
    using step_transcripts [of opts eng s e] by auto
qed

theorem start_clears_transcripts_first_witness:
  "isSupported ((init True)\<lparr>transcript := ''mi'', finalTranscript := ''eggs''\<rparr>)
   \<and> recognitionRef ((init True)\<lparr>transcript := ''mi'', finalTranscript := ''eggs''\<rparr>)
   \<and> calls (state_of (startListening failing
        ((init True)\<lparr>transcript := ''mi'', finalTranscript := ''eggs''\<rparr>)))
       = [\<lparr>invoked = Start, sawTranscript = [], sawFinal = []\<rparr>]
   \<and> transcript (state_of (startListening failing
        ((init True)\<lparr>transcript := ''mi'', finalTranscript := ''eggs''\<rparr>))) = []
   \<and> finalTranscript (state_of (startListening failing
        ((init True)\<lparr>transcript := ''mi'', finalTranscript := ''eggs''\<rparr>))) = []
   \<and> transcript (step default_options failing
        ((init True)\<lparr>transcript := ''mi'', finalTranscript := ''eggs''\<rparr>) CallReset) = []
   \<and> transcript ((init True)\<lparr>transcript := ''mi'', finalTranscript := ''eggs''\<rparr>) \<noteq> []
   \<and> finalTranscript (step default_options failing
        ((init True)\<lparr>transcript := ''mi'', finalTranscript := ''eggs''\<rparr>) CallReset) = []"
  using start_clears_transcripts_first
          [of "(init True)\<lparr>transcript := ''mi'', finalTranscript := ''eggs''\<rparr>" failing
              default_options CallReset]
  by (simp add: init_eq resetTranscript_def step_simps commit_stable)

text \<open>
  C2. After a successful \<^verbatim>\<open>startListening()\<close> with \<^verbatim>\<open>continuous\<close> enabled and no stop
  requested, an \<^verbatim>\<open>audioend\<close> event should schedule the 100 ms restart timer, and the
  timer should invoke the start primitive once more. The code does not: the listener
  clears the shadow listening flag in its first statement and then requires that same
  flag to be set before it schedules the timer. At the scenario of the claim no timer
  is pending after \<^verbatim>\<open>audioend\<close>, and 100 ms (or any time) later the start primitive has
  still been invoked only by \<^verbatim>\<open>startListening\<close> itself.
\<close>

theorem audioend_restart_never_happens:
  "continuous default_options
   \<and> \<not> stopRequestedRef (run default_options reliable (init True) [CallStart])
   \<and> isListening (run default_options reliable (init True) [CallStart])
   \<and> timers (run default_options reliable (init True) [CallStart, EvAudioend]) = []
   \<and> audioendTimeoutRef (run default_options reliable (init True) [CallStart, EvAudioend]) = None
   \<and> starts (run default_options reliable (init True) [CallStart, EvAudioend, Elapse 100]) = 1
   \<and> starts (run default_options reliable (init True) [CallStart, EvAudioend, Elapse 5000]) = 1"
  by (simp add: run_def step_simps commit_stable deps_change_def start_closed audioend_closed
        elapse_def fire_due_idle init_eq default_options_def reliable_def starts_def)

subsection \<open>No restart while a stop is requested\<close>

lemma fire_blocked: "blocked (fire eng t s) = blocked s"
  by (simp add: blocked_def fire_stopRequestedRef fire_recognitionRef)

lemma fire_starts: "blocked s \<Longrightarrow> starts (fire eng t s) = starts s"
  by (cases "kind t")
     (auto simp: fire_def restart_closed inactivity_closed blocked_def starts_def logged_def)

lemma rerun_blocked: "blocked (rerun s) = blocked s \<and> starts (rerun s) = starts s"
  by (simp add: rerun_closed blocked_def starts_def)

lemma commit_blocked:
  "blocked (commit opts s s') = blocked s' \<and> starts (commit opts s s') = starts s'"
  using commit_cases [of opts s s'] rerun_blocked [of s'] by auto

lemma after_timer_blocked:
  assumes "blocked s"
  shows "blocked (after_timer opts eng t s) \<and> starts (after_timer opts eng t s) = starts s"
proof -
  let ?s1 = "s\<lparr>timers := remove1 t (timers s)\<rparr>"
  have b: "blocked ?s1" and n: "starts ?s1 = starts s"
    using assms by (simp_all add: blocked_def starts_def)
  have "blocked (fire eng t ?s1) \<and> starts (fire eng t ?s1) = starts s"
    using b n by (simp add: fire_blocked fire_starts)
  then show ?thesis
    using commit_blocked [of opts ?s1 "fire eng t ?s1"] by (simp add: after_timer_def Let_def)
qed

lemma fire_due_blocked:
  "blocked s \<Longrightarrow>
     blocked (fire_due opts eng limit s) \<and> starts (fire_due opts eng limit s) = starts s"
proof (induction opts eng limit s rule: fire_due.induct)
  case (1 opts eng limit s)
  show ?case
  proof (cases "next_due limit (timers s)")
    case None
    with "1.prems" show ?thesis by (simp add: fire_due_idle)
  next
    case (Some t)
    from after_timer_blocked [OF "1.prems", of opts eng t]
    have b: "blocked (after_timer opts eng t s)"
      and n: "starts (after_timer opts eng t s) = starts s"
      by simp_all
    from "1.IH" [OF Some b] n Some show ?thesis
      by (simp add: fire_due_next)
  qed
qed

lemma elapse_blocked:
  assumes "blocked s"
  shows "blocked (elapse opts eng d s) \<and> starts (elapse opts eng d s) = starts s"
  using fire_due_blocked [OF assms, of opts eng "clock s + d"]
  by (simp add: elapse_def blocked_def starts_def)

lemma on_result_quiet:
  "stopRequestedRef (on_result opts ev s) = stopRequestedRef s
   \<and> recognitionRef (on_result opts ev s) = recognitionRef s
   \<and> calls (on_result opts ev s) = calls s"
  by (simp add: on_result_closed Let_def notify_def rearm_def setTimeout_def clearTimeout_def
           split: option.splits)

lemma on_error_quiet:
  "stopRequestedRef (on_error opts err s) = stopRequestedRef s
   \<and> recognitionRef (on_error opts err s) = recognitionRef s
   \<and> calls (on_error opts err s) = calls s"
  by (simp add: on_error_def Let_def notify_def)

lemma on_end_quiet:
  "stopRequestedRef (on_end opts s) = stopRequestedRef s
   \<and> recognitionRef (on_end opts s) = recognitionRef s
   \<and> calls (on_end opts s) = calls s"
  by (simp add: on_end_def Let_def notify_def)

lemma stop_blocked:
  "blocked (state_of (stopListening eng s))
   \<and> starts (state_of (stopListening eng s)) = starts s"
  by (cases "recognitionRef s")
     (simp_all add: stop_closed stop_unbound blocked_def starts_def halt_calls_def logged_def)

lemma handle_event_blocked:
  assumes "blocked s" and "e \<noteq> CallStart"
  shows "blocked (handle_event opts eng s e) \<and> starts (handle_event opts eng s e) = starts s"
proof (cases e)
  case CallStart
  with assms show ?thesis by simp
next
  case (Elapse d)
  with assms elapse_blocked [of s opts eng d] show ?thesis by simp
next
  case CallStop
  with stop_blocked [of eng s] show ?thesis by simp
next
  case (EvResult ev)
  with assms show ?thesis by (simp add: blocked_def starts_def on_result_quiet)
next
  case (EvError err)
  with assms show ?thesis by (simp add: blocked_def starts_def on_error_quiet)
next
  case EvEnd
  with assms show ?thesis by (simp add: blocked_def starts_def on_end_quiet)
next
  case EvAudioend
  with assms show ?thesis by (simp add: blocked_def starts_def audioend_closed)
next
  case CallReset
  with assms show ?thesis by (simp add: blocked_def starts_def resetTranscript_def)
next
  case Render
  with assms render_cases [of opts s] rerun_blocked [of s] show ?thesis by auto
next
  case Unmount
  with assms show ?thesis by (simp add: blocked_def starts_def cleanup_closed)
qed

lemma step_blocked:
  assumes "blocked s" and "e \<noteq> CallStart"
  shows "blocked (step opts eng s e) \<and> starts (step opts eng s e) = starts s"
  using handle_event_blocked [OF assms, of opts eng]
    commit_blocked [of opts s "handle_event opts eng s e"]
  by (cases e) (simp_all add: step_def)

lemma run_blocked:
  "blocked s \<Longrightarrow> CallStart \<notin> set es \<Longrightarrow>
     blocked (run opts eng s es) \<and> starts (run opts eng s es) = starts s"
proof (induction es arbitrary: s)
  case Nil
  then show ?case by (simp add: run_def)
next
  case (Cons e es)
  then have e: "e \<noteq> CallStart" and es: "CallStart \<notin> set es"
    by auto
  from step_blocked [OF Cons.prems(1) e, of opts eng]
  have b: "blocked (step opts eng s e)" and n: "starts (step opts eng s e) = starts s"
    by simp_all
  from Cons.IH [OF b es] n show ?case
    by (simp add: run_def)
qed

text \<open>
  C1. Once \<^verbatim>\<open>stopListening()\<close> has been called, then over every sequence of engine
  events, timer firings, renders and further method calls that contains no
  \<^verbatim>\<open>startListening()\<close>,
  the engine's start primitive is never invoked: neither an \<^verbatim>\<open>audioend\<close> event nor any
  restart timer does so, whichever timers were pending when the stop was called.
\<close>

theorem no_restart_after_stop:
  "CallStart \<notin> set es \<Longrightarrow>
     starts (run opts eng (state_of (stopListening eng s)) es)
       = starts (state_of (stopListening eng s))"
  using run_blocked [of "state_of (stopListening eng s)" es opts eng] stop_blocked [of eng s]
  by simp

text \<open>
  The witness stops a listening session with two restart timers in flight, only the
  later of which the ref still holds, and then lets the engine emit \<^verbatim>\<open>audioend\<close> and
  \<^verbatim>\<open>end\<close> while both delays pass.
\<close>

theorem no_restart_after_stop_witness:
  "CallStart \<notin> set [EvAudioend, Elapse 100, EvEnd, Elapse 100]
   \<and> starts (run default_options reliable
        (state_of (stopListening reliable
           ((init True)\<lparr>isListening := True, isListeningRef := True,
              timers := [\<lparr>handle = 1, due = 50, kind = Restart\<rparr>,
                         \<lparr>handle = 2, due = 80, kind = Restart\<rparr>],
              audioendTimeoutRef := Some 2, nextHandle := 3,
              calls := [\<lparr>invoked = Start, sawTranscript = [], sawFinal = []\<rparr>]\<rparr>)))
        [EvAudioend, Elapse 100, EvEnd, Elapse 100])
     = 1"
  using no_restart_after_stop
          [of "[EvAudioend, Elapse 100, EvEnd, Elapse 100]" default_options reliable
              "(init True)\<lparr>isListening := True, isListeningRef := True,
                 timers := [\<lparr>handle = 1, due = 50, kind = Restart\<rparr>,
                            \<lparr>handle = 2, due = 80, kind = Restart\<rparr>],
                 audioendTimeoutRef := Some 2, nextHandle := 3,
              calls := [\<lparr>invoked = Start, sawTranscript = [], sawFinal = []\<rparr>]\<rparr>"]
  by (simp add: stop_closed init_eq starts_def halt_calls_def logged_def reliable_def)

subsection \<open>The inactivity watchdog\<close>





lemma rearm_frame:
  "clock (rearm opts s) = clock s \<and> calls (rearm opts s) = calls s
   \<and> callbacks (rearm opts s) = callbacks s \<and> isListening (rearm opts s) = isListening s
   \<and> isListeningRef (rearm opts s) = isListeningRef s
   \<and> recognitionRef (rearm opts s) = recognitionRef s
   \<and> manuallyStoppedRef (rearm opts s) = manuallyStoppedRef s"
  by (simp add: rearm_def setTimeout_def clearTimeout_def Let_def split: option.splits)

lemma on_result_frame:
  "timers (on_result opts ev s) = timers (rearm opts s)
   \<and> clock (on_result opts ev s) = clock s \<and> calls (on_result opts ev s) = calls s
   \<and> isListening (on_result opts ev s) = isListening s
   \<and> isListeningRef (on_result opts ev s) = isListeningRef s
   \<and> recognitionRef (on_result opts ev s) = recognitionRef s
   \<and> manuallyStoppedRef (on_result opts ev s) = manuallyStoppedRef s
   \<and> inactivityTimeoutRef (on_result opts ev s) = inactivityTimeoutRef (rearm opts s)"
  by (simp add: on_result_closed Let_def notify_def rearm_frame)










lemma elapse_clock: "clock (elapse opts eng d s) = clock s + d"
  by (simp add: elapse_def)



lemma quiet_cases: "quiet e \<Longrightarrow> (\<exists>d. e = Elapse d) \<or> (\<forall>d. e \<noteq> Elapse d)"
  by (cases e) simp_all

lemma elapsed_Cons:
  "elapsed (e # es) = (case e of Elapse d \<Rightarrow> d + elapsed es | _ \<Rightarrow> elapsed es)"
  by (cases e) simp_all








text \<open>
  The condition on the callbacks is needed. With an inline \<^verbatim>\<open>onResult\<close> the same interim
  result changes \<^verbatim>\<open>transcript\<close>, the render that follows re-runs the effect, and its
  cleanup cancels the timer just scheduled: abort is never invoked.
\<close>

lemma inline_callback_cancels_watchdog:
  "timers (run (default_options\<lparr>onResult := True, inlineCallbacks := True\<rparr>) reliable (init True)
       [CallStart,
        EvResult \<lparr>resultIndex = 0, results = [\<lparr>isFinal = False, text0 = ''milk''\<rparr>]\<rparr>]) = []
   \<and> aborts (run (default_options\<lparr>onResult := True, inlineCallbacks := True\<rparr>) reliable (init True)
       [CallStart,
        EvResult \<lparr>resultIndex = 0, results = [\<lparr>isFinal = False, text0 = ''milk''\<rparr>]\<rparr>,
        Elapse 3000]) = 0"
  by (simp add: run_def step_simps commit_def cells_def render_def deps_change_def rerun_closed
        cancel_def start_closed on_result_closed interim_text_def final_text_def rearm_def
        setTimeout_def notify_def Let_def elapse_def fire_due_idle init_eq default_options_def
        reliable_def aborts_def)

subsection \<open>At most one inactivity timer is pending\<close>

lemma single_watchdog_rearm: "single_watchdog s \<Longrightarrow> single_watchdog (rearm opts s)"
proof (cases "inactivityTimeoutRef s")
  case None
  assume "single_watchdog s"
  with None show ?thesis
    by (auto simp: single_watchdog_def list_all_iff rearm_def setTimeout_def Let_def)
next
  case (Some h)
  assume "single_watchdog s"
  with Some show ?thesis
    by (auto simp: single_watchdog_def list_all_iff rearm_def setTimeout_def clearTimeout_def
          Let_def)
qed

lemma single_watchdog_stop:
  assumes "single_watchdog s"
  shows "single_watchdog (state_of (stopListening eng s))"
proof (cases "recognitionRef s")
  case True
  with assms show ?thesis
    by (auto simp: stop_closed single_watchdog_def list_all_iff cancel_def split: option.splits)
next
  case False
  with assms show ?thesis by (simp add: stop_unbound)
qed

lemma single_watchdog_start:
  assumes "single_watchdog s"
  shows "single_watchdog (state_of (startListening eng s))"
proof (cases "isSupported s \<and> recognitionRef s")
  case True
  with assms show ?thesis by (simp add: start_closed single_watchdog_def)
next
  case False
  with assms show ?thesis by (auto simp: start_unbound)
qed

lemma single_watchdog_cancel:
  "single_watchdog s \<Longrightarrow>
     single_watchdog
       (s\<lparr>timers := cancel (audioendTimeoutRef s) (cancel (inactivityTimeoutRef s) (timers s))\<rparr>)"
  by (auto simp: single_watchdog_def list_all_iff cancel_def split: option.splits)

lemma single_watchdog_rerun: "single_watchdog s \<Longrightarrow> single_watchdog (rerun s)"
  using single_watchdog_cancel [of s] by (simp add: rerun_closed single_watchdog_def)

lemma single_watchdog_commit:
  "single_watchdog s' \<Longrightarrow> single_watchdog (commit opts s s')"
  using commit_cases [of opts s s'] single_watchdog_rerun [of s'] by auto

lemma single_watchdog_after_timer:
  assumes "single_watchdog s"
  shows "single_watchdog (after_timer opts eng t s)"
proof -
  let ?s1 = "s\<lparr>timers := remove1 t (timers s)\<rparr>"
  have "set (remove1 t (timers s)) \<subseteq> set (timers s)"
    by (rule set_remove1_subset)
  with assms have "single_watchdog ?s1"
    by (auto simp: single_watchdog_def list_all_iff)
  then have "single_watchdog (fire eng t ?s1)"
    by (simp add: single_watchdog_def fire_timers fire_inactivityTimeoutRef)
  then show ?thesis
    by (simp add: after_timer_def Let_def single_watchdog_commit)
qed

lemma single_watchdog_fire_due:
  "single_watchdog s \<Longrightarrow> single_watchdog (fire_due opts eng limit s)"
proof (induction opts eng limit s rule: fire_due.induct)
  case (1 opts eng limit s)
  show ?case
  proof (cases "next_due limit (timers s)")
    case None
    with "1.prems" show ?thesis by (simp add: fire_due_idle)
  next
    case (Some t)
    from "1.IH" [OF Some single_watchdog_after_timer [OF "1.prems"]] Some show ?thesis
      by (simp add: fire_due_next)
  qed
qed

lemma single_watchdog_elapse:
  "single_watchdog s \<Longrightarrow> single_watchdog (elapse opts eng d s)"
  using single_watchdog_fire_due [of s opts eng "clock s + d"]
  by (simp add: elapse_def single_watchdog_def)

lemma single_watchdog_handle_event:
  assumes "single_watchdog s"
  shows "single_watchdog (handle_event opts eng s e)"
proof (cases e)
  case (EvResult ev)
  with single_watchdog_rearm [OF assms, of opts] show ?thesis
    by (simp add: single_watchdog_def on_result_frame)
next
  case (EvError err)
  with assms show ?thesis by (simp add: single_watchdog_def on_error_def notify_def Let_def)
next
  case EvEnd
  with assms show ?thesis by (simp add: single_watchdog_def on_end_def notify_def Let_def)
next
  case EvAudioend
  with assms show ?thesis by (simp add: single_watchdog_def audioend_closed)
next
  case CallStart
  with single_watchdog_start [OF assms] show ?thesis by simp
next
  case CallStop
  with single_watchdog_stop [OF assms] show ?thesis by simp
next
  case CallReset
  with assms show ?thesis by (simp add: single_watchdog_def resetTranscript_def)
next
  case (Elapse d)
  with single_watchdog_elapse [OF assms] show ?thesis by simp
next
  case Render
  with assms render_cases [of opts s] single_watchdog_rerun [of s] show ?thesis by auto
next
  case Unmount
  with single_watchdog_cancel [OF assms] show ?thesis by (simp add: cleanup_closed)
qed

lemma single_watchdog_step:
  assumes "single_watchdog s"
  shows "single_watchdog (step opts eng s e)"
  using single_watchdog_handle_event [OF assms, of opts eng e]
  by (cases e) (simp_all add: step_def single_watchdog_commit)

lemma single_watchdog_run: "single_watchdog s \<Longrightarrow> single_watchdog (run opts eng s es)"
  unfolding run_def
  by (induction es arbitrary: s) (simp_all add: single_watchdog_step)

lemma single_watchdog_reachable: "single_watchdog (run opts eng (init has_engine) es)"
  by (rule single_watchdog_run) (simp add: single_watchdog_def init_eq)

end
